theory Spec2Isabelle
  imports
    Complex_Main
    "HOL-Library.Multiset"
    "HOL-Library.List_Lexorder"
    "HOL-Library.Char_ord"
begin

section \<open>Python values shared by the scripts\<close>

text \<open>
  Strings are lists of characters, compared as Python compares \<open>str\<close>: character by
  character on the code, a proper prefix first.  Project names, metric names and date keys
  are ASCII in this repository's data.  Numbers read from JSON or CSV are modelled as reals;
  rounding of binary floats is outside the model.
\<close>

datatype py_error = ValueError | OverflowError | KeyError | TypeError | IOError

text \<open>A Python \<open>float\<close>: a finite value, or one of the three special values.\<close>

datatype pyfloat = Finite real | FNaN | PosInf | NegInf

text \<open>The values \<open>get_stars_count\<close> can be handed; \<open>POther\<close> is any list, dict or object.\<close>

datatype pyval = PNone | PStr string | PBool bool | PInt int | PFloat pyfloat | POther


section \<open>\<open>github_popular_projects_analyzer.py\<close>: \<open>get_stars_count\<close>\<close>

text \<open>
  \<open>s.replace(old, '')\<close>: every occurrence of \<open>old\<close> is removed, scanning from the left
  without overlaps.  The scripts call it with \<open>','\<close>, \<open>'-raw'\<close> and \<open>'.json'\<close>.
\<close>

fun starts_with :: "string \<Rightarrow> string \<Rightarrow> bool" where
  "starts_with s [] = True"
| "starts_with [] (k # ks) = False"
| "starts_with (c # cs) (k # ks) = (c = k \<and> starts_with cs ks)"

function remove_all :: "string \<Rightarrow> string \<Rightarrow> string" where
  "remove_all old [] = []"
| "remove_all old (c # cs) =
     (if old \<noteq> [] \<and> starts_with (c # cs) old
      then remove_all old (drop (length old) (c # cs))
      else c # remove_all old cs)"
  by pat_completeness auto
termination
  by (relation "measure (\<lambda>(old, s). length s)") auto

text \<open>\<open>stars.replace(',', '')\<close>\<close>

definition remove_commas :: "string \<Rightarrow> string" where
  "remove_commas s = remove_all '','' s"

text \<open>\<open>str.isdigit()\<close> on an ASCII string: non-empty and every character in \<open>0..9\<close>.\<close>

definition is_digit_char :: "char \<Rightarrow> bool" where
  "is_digit_char c = (CHR ''0'' \<le> c \<and> c \<le> CHR ''9'')"

definition isdigit :: "string \<Rightarrow> bool" where
  "isdigit s = (s \<noteq> [] \<and> list_all is_digit_char s)"

definition digit_val :: "char \<Rightarrow> int" where
  "digit_val c = of_char c - 48"

text \<open>
  \<open>int(s)\<close> on a string: the decimal value of a string of digits, \<open>ValueError\<close> otherwise
  (signs and blanks never reach \<open>int\<close> here, \<open>isdigit\<close> has excluded them).
\<close>

definition py_int_str :: "string \<Rightarrow> py_error + int" where
  "py_int_str s =
     (if isdigit s then Inr (foldl (\<lambda>a c. 10 * a + digit_val c) 0 s) else Inl ValueError)"

text \<open>\<open>int(x)\<close> on a float truncates towards zero; it raises on NaN and on the infinities.\<close>

definition trunc :: "real \<Rightarrow> int" where
  "trunc x = (if 0 \<le> x then \<lfloor>x\<rfloor> else \<lceil>x\<rceil>)"

fun py_int_float :: "pyfloat \<Rightarrow> py_error + int" where
  "py_int_float (Finite x) = Inr (trunc x)"
| "py_int_float FNaN = Inl ValueError"
| "py_int_float PosInf = Inl OverflowError"
| "py_int_float NegInf = Inl OverflowError"

text \<open>
  The method itself.  The \<open>try ... except ValueError\<close> covers only the string branch;
  the \<open>int(stars)\<close> of the number branch is unguarded.
\<close>

fun get_stars_count :: "pyval \<Rightarrow> py_error + int" where
  "get_stars_count PNone = Inr 0"
| "get_stars_count (PStr stars) =
     (let stars' = remove_commas stars in
      case (if isdigit stars' then py_int_str stars' else Inr 0) of
        Inl ValueError \<Rightarrow> Inr 0
      | Inl e \<Rightarrow> Inl e
      | Inr n \<Rightarrow> Inr n)"
| "get_stars_count (PBool b) = Inr (if b then 1 else 0)"
| "get_stars_count (PInt n) = Inr n"
| "get_stars_count (PFloat x) = py_int_float x"
| "get_stars_count POther = Inr 0"


section \<open>\<open>04_expand_project_analysis.py\<close>: \<open>enhanced_classify_project_type\<close>\<close>






text \<open>\<open>keyword in name\<close>: the keyword occurs as a contiguous substring.\<close>

fun is_in :: "string \<Rightarrow> string \<Rightarrow> bool" where
  "is_in kw [] = (kw = [])"
| "is_in kw (c # cs) = (starts_with (c # cs) kw \<or> is_in kw cs)"







section \<open>\<open>04_expand_project_analysis.py\<close>: \<open>load_and_merge_data\<close>\<close>

text \<open>
  A numeric cell of a pandas table: a number, or \<open>NaN\<close> where the CSV cell is empty.
  Comparisons with \<open>NaN\<close> are false, so \<open>NaN > 0\<close> is false.
\<close>

datatype cell = NaN | Num real

fun cell_gt :: "cell \<Rightarrow> cell \<Rightarrow> bool" where
  "cell_gt (Num a) (Num b) = (a > b)"
| "cell_gt (Num a) NaN = False"
| "cell_gt NaN c = False"

text \<open>Rows of \<open>complete_total_stars_ranking.csv\<close>, with the columns the function reads.\<close>

record complete_row =
  c_rank :: cell
  c_org :: string
  c_project :: string
  c_full_name :: string
  c_total_stars :: cell
  c_monthly_stars_latest :: cell
  c_activity_latest :: cell
  c_openrank_latest :: cell

text \<open>Rows of \<open>top_100_projects.csv\<close>.\<close>

record top100_row =
  t_organization :: string
  t_project :: string
  t_full_name :: string
  t_stars :: cell
  t_activity :: cell

text \<open>Rows of \<open>improved_project_analysis.csv\<close>; only these two columns are read.\<close>

record improved_row =
  i_full_name :: string
  i_openrank_latest :: cell

text \<open>The dictionaries appended to \<open>extended_projects\<close>, and the rows of the result.\<close>

record project_row =
  rank :: cell
  org :: string
  project :: string
  full_name :: string
  total_stars :: cell
  monthly_stars_latest :: cell
  activity_latest :: cell
  openrank_latest :: cell
  source :: string

text \<open>Step 1: every row of the complete table is taken over whole.\<close>

definition from_complete :: "complete_row \<Rightarrow> project_row" where
  "from_complete row =
     \<lparr>rank = c_rank row, org = c_org row, project = c_project row,
      full_name = c_full_name row, total_stars = c_total_stars row,
      monthly_stars_latest = c_monthly_stars_latest row,
      activity_latest = c_activity_latest row,
      openrank_latest = c_openrank_latest row, source = ''complete_ranking''\<rparr>"

text \<open>
  \<open>match = improved_df[improved_df['full_name'] == name]\<close> and \<open>match.iloc[0]\<close>: the first
  row with that name.  \<open>None\<close> is Python's \<open>None\<close>, the initial value of
  \<open>openrank_latest\<close>; an empty \<open>improved_df\<close> (also the one left by a failed read) has
  no match.
\<close>

definition lookup_improved :: "improved_row list \<Rightarrow> string \<Rightarrow> cell option" where
  "lookup_improved improved_df name =
     (case filter (\<lambda>m. i_full_name m = name) improved_df of
        [] \<Rightarrow> None
      | m # ms \<Rightarrow> Some (i_openrank_latest m))"

text \<open>
  Step 2, the dictionary built for one row of the top-100 table; \<open>n\<close> is
  \<open>len(extended_projects)\<close> at that moment.  A missing openrank becomes \<open>0.0\<close>
  (the source's comment: marked as missing); \<open>total_stars\<close> is always \<open>None\<close> at its test,
  so it is the row's \<open>stars\<close>.
\<close>

definition from_top100 :: "improved_row list \<Rightarrow> nat \<Rightarrow> top100_row \<Rightarrow> project_row" where
  "from_top100 improved_df n row =
     (let openrank_latest =
            (case lookup_improved improved_df (t_full_name row) of
               None \<Rightarrow> Num 0
             | Some v \<Rightarrow> v);
          total_stars = t_stars row
      in \<lparr>rank = Num (real (n + 1)), org = t_organization row, project = t_project row,
          full_name = t_full_name row, total_stars = total_stars,
          monthly_stars_latest = t_stars row, activity_latest = t_activity row,
          openrank_latest = openrank_latest, source = ''top100_only''\<rparr>)"

text \<open>
  The loop over the top-100 rows.  \<open>existing_names\<close> is computed once, before the loop,
  and is not extended inside it.
\<close>

fun add_top100 ::
  "string set \<Rightarrow> improved_row list \<Rightarrow> top100_row list \<Rightarrow> project_row list \<Rightarrow> project_row list"
where
  "add_top100 existing_names improved_df [] extended_projects = extended_projects"
| "add_top100 existing_names improved_df (row # rows) extended_projects =
     (if t_full_name row \<notin> existing_names
      then add_top100 existing_names improved_df rows
             (extended_projects @ [from_top100 improved_df (length extended_projects) row])
      else add_top100 existing_names improved_df rows extended_projects)"

definition extended_projects ::
  "complete_row list \<Rightarrow> top100_row list \<Rightarrow> improved_row list \<Rightarrow> project_row list"
where
  "extended_projects complete_df top100_df improved_df =
     (let extended_projects = map from_complete complete_df;
          existing_names = set (map full_name extended_projects)
      in add_top100 existing_names improved_df top100_df extended_projects)"

text \<open>
  \<open>sort_values(key, ascending=False)\<close>: descending by the key, rows whose key is \<open>NaN\<close>
  last.  \<open>goes_before a b\<close> says that a row with key \<open>a\<close> may stand before one with key
  \<open>b\<close>.  The source does not pass \<open>kind=\<close>, so pandas sorts with its default
  quicksort, which is not stable: the order of rows with equal keys is not fixed by the
  code.  The insertion sort here returns one of the sorted arrangements (rows with equal
  keys keep their order); every sorted arrangement has the same sequence of keys (lemma
  \<open>sorted_arrangement_keys\<close>), and no property proved below depends on the order of
  rows with equal keys.
\<close>

fun goes_before :: "cell \<Rightarrow> cell \<Rightarrow> bool" where
  "goes_before (Num a) (Num b) = (a \<ge> b)"
| "goes_before (Num a) NaN = True"
| "goes_before NaN NaN = True"
| "goes_before NaN (Num b) = False"

fun insert_desc :: "('a \<Rightarrow> cell) \<Rightarrow> 'a \<Rightarrow> 'a list \<Rightarrow> 'a list" where
  "insert_desc key r [] = [r]"
| "insert_desc key r (x # xs) =
     (if goes_before (key r) (key x) then r # x # xs else x # insert_desc key r xs)"

definition sort_values_desc :: "('a \<Rightarrow> cell) \<Rightarrow> 'a list \<Rightarrow> 'a list" where
  "sort_values_desc key rows = foldr (insert_desc key) rows []"

text \<open>\<open>extended_df['openrank_latest'] > 0\<close>\<close>

definition has_openrank :: "project_row \<Rightarrow> bool" where
  "has_openrank r = cell_gt (openrank_latest r) (Num 0)"

text \<open>
  The key a row is sorted by: its openrank in the first part of the table, its stars in
  the second.
\<close>

definition sort_key :: "project_row \<Rightarrow> cell" where
  "sort_key r = (if has_openrank r then openrank_latest r else total_stars r)"

text \<open>\<open>final_df['rank'] = range(1, len(final_df) + 1)\<close>\<close>

definition assign_ranks :: "project_row list \<Rightarrow> project_row list" where
  "assign_ranks rows =
     map (\<lambda>(i, r). r\<lparr>rank := Num (real i)\<rparr>) (zip [1 ..< length rows + 1] rows)"

text \<open>
  The function.  \<open>pd.DataFrame([])\<close> has no columns, so with no project at all
  \<open>extended_df['openrank_latest']\<close> raises \<open>KeyError\<close>.
\<close>

definition load_and_merge_data ::
  "complete_row list \<Rightarrow> top100_row list \<Rightarrow> improved_row list \<Rightarrow> py_error + project_row list"
where
  "load_and_merge_data complete_df top100_df improved_df =
     (let extended_df = extended_projects complete_df top100_df improved_df in
      if extended_df = [] then Inl KeyError
      else
        let df_with_openrank =
              sort_values_desc openrank_latest (filter has_openrank extended_df);
            df_without_openrank =
              sort_values_desc total_stars (filter (\<lambda>r. \<not> has_openrank r) extended_df);
            final_df = df_with_openrank @ df_without_openrank
        in Inr (assign_ranks final_df))"

text \<open>A row without its rank, to compare rows whatever their position.\<close>

definition drop_rank :: "project_row \<Rightarrow> project_row" where
  "drop_rank r = r\<lparr>rank := NaN\<rparr>"

text \<open>
  Small tables for concrete runs: three rows of the complete ranking (an openrank of zero,
  an empty openrank cell, an openrank of 7.2), one more for \<open>org/repo\<close> with an empty
  openrank cell, a top-100 row for \<open>org/repo\<close> and two rows of the improved analysis for
  it.
\<close>

definition example_zero :: complete_row where
  "example_zero =
     \<lparr>c_rank = Num 1, c_org = ''o'', c_project = ''zero'', c_full_name = ''o/zero'',
      c_total_stars = Num 1, c_monthly_stars_latest = Num 1, c_activity_latest = Num 2,
      c_openrank_latest = Num 0\<rparr>"

definition example_nan :: complete_row where
  "example_nan =
     \<lparr>c_rank = Num 2, c_org = ''o'', c_project = ''nan'', c_full_name = ''o/nan'',
      c_total_stars = Num 1000, c_monthly_stars_latest = Num 9, c_activity_latest = Num 4,
      c_openrank_latest = NaN\<rparr>"

definition example_ranked :: complete_row where
  "example_ranked =
     \<lparr>c_rank = Num 3, c_org = ''o'', c_project = ''ranked'', c_full_name = ''o/ranked'',
      c_total_stars = Num 10, c_monthly_stars_latest = Num 1, c_activity_latest = Num 6,
      c_openrank_latest = Num 7.2\<rparr>"

definition example_complete_repo :: complete_row where
  "example_complete_repo =
     \<lparr>c_rank = Num 1, c_org = ''org'', c_project = ''repo'', c_full_name = ''org/repo'',
      c_total_stars = Num 500, c_monthly_stars_latest = Num 20, c_activity_latest = Num 3,
      c_openrank_latest = NaN\<rparr>"

definition example_top100 :: top100_row where
  "example_top100 =
     \<lparr>t_organization = ''org'', t_project = ''repo'', t_full_name = ''org/repo'',
      t_stars = Num 500, t_activity = Num 3\<rparr>"

definition example_improved :: improved_row where
  "example_improved = \<lparr>i_full_name = ''org/repo'', i_openrank_latest = Num 7.2\<rparr>"

definition example_improved_low :: improved_row where
  "example_improved_low = \<lparr>i_full_name = ''org/repo'', i_openrank_latest = Num 3.1\<rparr>"


section \<open>JSON metric files\<close>

text \<open>
  What \<open>json.load\<close> returns.  An object is the list of its items in file order, as a Python
  \<open>dict\<close> keeps them.  A file on disk is missing, or unreadable (opening or parsing it
  raises), or has a parsed content.
\<close>

datatype json =
  JNull | JBool bool | JNum real | JStr string | JArr "json list" | JObj "(string \<times> json) list"

datatype json_file = Missing | Unreadable | Content json

type_synonym dict = "(string \<times> json) list"

text \<open>\<open>d[k] = v\<close>: an existing key keeps its place, a new key goes to the end.\<close>

fun dict_set :: "dict \<Rightarrow> string \<Rightarrow> json \<Rightarrow> dict" where
  "dict_set [] k v = [(k, v)]"
| "dict_set ((k', v') # d) k v =
     (if k' = k then (k', v) # d else (k', v') # dict_set d k v)"

text \<open>Python arithmetic on parsed values: numbers and booleans are numeric, nothing else.\<close>

fun num_of :: "json \<Rightarrow> real option" where
  "num_of (JNum x) = Some x"
| "num_of (JBool b) = Some (if b then 1 else 0)"
| "num_of v = None"

text \<open>\<open>sum(values)\<close>, starting from \<open>0\<close>; a non-numeric value raises \<open>TypeError\<close>.\<close>

fun py_sum_from :: "real \<Rightarrow> json list \<Rightarrow> py_error + real" where
  "py_sum_from acc [] = Inr acc"
| "py_sum_from acc (v # vs) =
     (case num_of v of None \<Rightarrow> Inl TypeError | Some x \<Rightarrow> py_sum_from (acc + x) vs)"

definition py_sum :: "json list \<Rightarrow> py_error + real" where
  "py_sum vs = py_sum_from 0 vs"

text \<open>\<open>a - b\<close>\<close>

definition py_sub :: "json \<Rightarrow> json \<Rightarrow> py_error + json" where
  "py_sub a b =
     (case (num_of a, num_of b) of
        (Some x, Some y) \<Rightarrow> Inr (JNum (x - y))
      | _ \<Rightarrow> Inl TypeError)"

text \<open>A metric file whose values are all numbers: the object of a dated series.\<close>

definition series_object :: "(string \<times> real) list \<Rightarrow> json" where
  "series_object series = JObj (map (\<lambda>(k, x). (k, JNum x)) series)"

text \<open>\<open>sorted(data.keys())\<close>\<close>

definition sorted_keys :: "dict \<Rightarrow> string list" where
  "sorted_keys d = sort (map fst d)"


section \<open>\<open>01_explore_data.py\<close>: \<open>collect_project_info\<close>\<close>

text \<open>
  The activity of one project folder: \<open>0\<close> unless \<open>activity.json\<close> is a non-empty object,
  then the value at its greatest key.  The bare \<open>except: pass\<close> keeps the \<open>0\<close>.
\<close>

definition activity_value_of :: "json_file \<Rightarrow> json" where
  "activity_value_of activity_file =
     (case activity_file of
        Missing \<Rightarrow> JNum 0
      | Unreadable \<Rightarrow> JNum 0
      | Content activity_data \<Rightarrow>
          (case activity_data of
             JObj items \<Rightarrow>
               if items \<noteq> [] then
                 (case map_of items (last (sorted_keys items)) of
                    None \<Rightarrow> JNum 0
                  | Some v \<Rightarrow> v)
               else JNum 0
           | JNull \<Rightarrow> JNum 0 | JBool b \<Rightarrow> JNum 0 | JNum x \<Rightarrow> JNum 0
           | JStr s \<Rightarrow> JNum 0 | JArr a \<Rightarrow> JNum 0))"

text \<open>
  \<open>latest_stars\<close>: the sum of all monthly values of a non-empty object, the value itself
  when it is a number, \<open>0\<close> otherwise.
\<close>

definition latest_stars_of :: "json \<Rightarrow> py_error + json" where
  "latest_stars_of stars_data =
     (case stars_data of
        JObj items \<Rightarrow>
          if items \<noteq> [] then
            (case py_sum (map snd items) of
               Inl e \<Rightarrow> Inl e
             | Inr stars_total \<Rightarrow> Inr (JNum stars_total))
          else Inr (JNum 0)
      | JNum x \<Rightarrow> Inr (JNum x)
      | JBool b \<Rightarrow> Inr (JBool b)
      | JNull \<Rightarrow> Inr (JNum 0) | JStr s \<Rightarrow> Inr (JNum 0) | JArr a \<Rightarrow> Inr (JNum 0))"

text \<open>
  The body of the loop over project folders: the dictionary appended to \<open>projects_info\<close>,
  or nothing when there is no \<open>stars.json\<close> or when the outer \<open>try\<close> catches an exception.
\<close>

definition project_info_entry ::
  "string \<Rightarrow> string \<Rightarrow> json_file \<Rightarrow> json_file \<Rightarrow> dict option"
where
  "project_info_entry org_name project_name stars_file activity_file =
     (case stars_file of
        Missing \<Rightarrow> None
      | Unreadable \<Rightarrow> None
      | Content stars_data \<Rightarrow>
          (case latest_stars_of stars_data of
             Inl e \<Rightarrow> None
           | Inr latest_stars \<Rightarrow>
               Some [(''organization'', JStr org_name),
                     (''project'', JStr project_name),
                     (''full_name'', JStr (org_name @ ''/'' @ project_name)),
                     (''stars'', latest_stars),
                     (''activity'', activity_value_of activity_file)]))"

text \<open>
  The data directory: the organisation folders, each with its project folders, each a
  map from file names to files.
\<close>

type_synonym project_dir = "string \<Rightarrow> json_file"
type_synonym base_dir = "(string \<times> (string \<times> project_dir) list) list"

definition collect_project_info :: "base_dir \<Rightarrow> nat option \<Rightarrow> dict list option" where
  "collect_project_info base_dir max_orgs =
     (let org_folders =
            (case max_orgs of
               None \<Rightarrow> base_dir
             | Some n \<Rightarrow> if n \<noteq> 0 then take n base_dir else base_dir);
          projects_info =
            concat (map (\<lambda>(org_name, project_folders).
              List.map_filter (\<lambda>(project_name, files).
                project_info_entry org_name project_name
                  (files ''stars.json'') (files ''activity.json''))
                project_folders) org_folders)
      in if projects_info \<noteq> [] then Some projects_info else None)"


section \<open>\<open>02_deep_analysis.py\<close>: \<open>analyze_multiple_metrics\<close>\<close>

definition metrics_to_read :: "string list" where
  "metrics_to_read =
     [''stars.json'', ''technical_fork.json'', ''activity.json'',
      ''openrank.json'', ''change_requests.json'', ''issues_new.json'']"

text \<open>
  The body of the \<open>try\<close> for one metric file that exists and parses, from \<open>project_info\<close>
  to \<open>project_info\<close>.  Where an operation raises, the \<open>except\<close> prints and the dictionary
  stays as it is at that point.
\<close>

definition read_metric :: "dict \<Rightarrow> string \<Rightarrow> json \<Rightarrow> dict" where
  "read_metric project_info metric_file data =
     (let metric_name = remove_all ''.json'' metric_file;
          other = dict_set project_info (metric_name @ ''_latest'') data
      in case data of
        JObj items \<Rightarrow>
          if items \<noteq> [] then
            if metric_name \<in> set [''stars'', ''technical_fork''] then
              (case py_sum (map snd items) of
                 Inl e \<Rightarrow> project_info
               | Inr total_value \<Rightarrow>
                   let project_info =
                         dict_set project_info (metric_name @ ''_latest'') (JNum total_value);
                       dates = sorted_keys items
                   in if length dates > 1 then
                        (case (map_of items (hd dates), map_of items (last dates)) of
                           (Some first_value, Some last_value) \<Rightarrow>
                             (case py_sub last_value first_value of
                                Inl e \<Rightarrow> project_info
                              | Inr growth \<Rightarrow>
                                  dict_set
                                    (dict_set project_info (metric_name @ ''_first'') first_value)
                                    (metric_name @ ''_growth'') growth)
                         | _ \<Rightarrow> project_info)
                      else project_info)
            else
              (let dates = sorted_keys items in
               case map_of items (last dates) of
                 None \<Rightarrow> project_info
               | Some latest_value \<Rightarrow>
                   if length dates > 1 then
                     (case map_of items (hd dates) of
                        None \<Rightarrow> project_info
                      | Some first_value \<Rightarrow>
                          (case py_sub latest_value first_value of
                             Inl e \<Rightarrow> project_info
                           | Inr growth \<Rightarrow>
                               dict_set
                                 (dict_set
                                    (dict_set project_info (metric_name @ ''_latest'') latest_value)
                                    (metric_name @ ''_first'') first_value)
                                 (metric_name @ ''_growth'') growth))
                   else dict_set project_info (metric_name @ ''_latest'') latest_value)
          else other
      | JNull \<Rightarrow> other | JBool b \<Rightarrow> other | JNum x \<Rightarrow> other
      | JStr s \<Rightarrow> other | JArr a \<Rightarrow> other)"

text \<open>One project folder: the loop over \<open>metrics_to_read\<close>.\<close>

definition project_metrics :: "string \<Rightarrow> string \<Rightarrow> project_dir \<Rightarrow> dict" where
  "project_metrics org_name project_name files =
     foldl (\<lambda>project_info metric_file.
              case files metric_file of
                Missing \<Rightarrow> project_info
              | Unreadable \<Rightarrow> project_info
              | Content data \<Rightarrow> read_metric project_info metric_file data)
       [(''project'', JStr (org_name @ ''/'' @ project_name))] metrics_to_read"


section \<open>\<open>03_final_analysis.py\<close>: \<open>clean_date\<close>, \<open>analyze_project_metrics\<close>\<close>

text \<open>
  Keys of a parsed object are strings, so the \<open>isinstance\<close> test holds.  Both ends of the
  function return \<open>date_str\<close>: the format test changes nothing.
\<close>

definition clean_date :: "string \<Rightarrow> string" where
  "clean_date date_str =
     (let date_str =
            (if is_in ''-raw'' date_str then remove_all ''-raw'' date_str else date_str)
      in if length date_str = 7 \<and> is_in ''-'' date_str then date_str else date_str)"

text \<open>
  The loop that fills \<open>cleaned_data\<close>: items in file order, a later item overwrites an
  earlier one with the same cleaned key, an empty cleaned key is dropped.
\<close>

definition clean_series :: "dict \<Rightarrow> dict" where
  "clean_series data =
     foldl (\<lambda>cleaned_data (date_str, v).
              let clean_dt = clean_date date_str in
              if clean_dt \<noteq> [] then dict_set cleaned_data clean_dt v else cleaned_data)
       [] data"

definition metric_files :: "(string \<times> string) list" where
  "metric_files =
     [(''stars'', ''stars.json''), (''forks'', ''technical_fork.json''),
      (''activity'', ''activity.json''), (''openrank'', ''openrank.json''),
      (''issues'', ''issues_new.json''), (''prs'', ''change_requests.json''),
      (''contributors'', ''new_contributors.json'')]"

text \<open>
  The body of the \<open>try\<close> for one metric file that exists and parses.  All assignments to
  \<open>results\<close> come after the subtraction, so an exception leaves \<open>results\<close> untouched.
\<close>

definition analyze_metric :: "dict \<Rightarrow> string \<Rightarrow> json \<Rightarrow> dict" where
  "analyze_metric results metric_name data =
     (case data of
        JObj items \<Rightarrow>
          if items \<noteq> [] then
            (let cleaned_data = clean_series items in
             if cleaned_data \<noteq> [] then
               (let sorted_dates = sorted_keys cleaned_data;
                    latest_date = last sorted_dates
                in case map_of cleaned_data latest_date of
                  None \<Rightarrow> results
                | Some latest_value \<Rightarrow>
                    if length sorted_dates > 1 then
                      (let first_date = hd sorted_dates in
                       case map_of cleaned_data first_date of
                         None \<Rightarrow> results
                       | Some first_value \<Rightarrow>
                           (case py_sub latest_value first_value of
                              Inl e \<Rightarrow> results
                            | Inr total_growth \<Rightarrow>
                                dict_set
                                  (dict_set
                                     (dict_set
                                        (dict_set
                                           (dict_set results
                                              (metric_name @ ''_latest'') latest_value)
                                           (metric_name @ ''_first'') first_value)
                                        (metric_name @ ''_growth'') total_growth)
                                     (metric_name @ ''_start_date'') (JStr first_date))
                                  (metric_name @ ''_end_date'') (JStr latest_date)))
                    else dict_set results (metric_name @ ''_latest'') latest_value)
             else results)
          else results
      | JNull \<Rightarrow> results | JBool b \<Rightarrow> results | JNum x \<Rightarrow> results
      | JStr s \<Rightarrow> results | JArr a \<Rightarrow> results)"

text \<open>The step of the loop over \<open>metric_files\<close> for one entry.\<close>

definition metric_step :: "project_dir \<Rightarrow> dict \<Rightarrow> string \<times> string \<Rightarrow> dict" where
  "metric_step files results entry =
     (case files (snd entry) of
        Missing \<Rightarrow> results
      | Unreadable \<Rightarrow> results
      | Content data \<Rightarrow> analyze_metric results (fst entry) data)"

definition project_results :: "string \<Rightarrow> string \<Rightarrow> project_dir \<Rightarrow> dict" where
  "project_results org_name project_name files =
     foldl (metric_step files)
       [(''org'', JStr org_name), (''project'', JStr project_name),
        (''full_name'', JStr (org_name @ ''/'' @ project_name))]
       metric_files"

text \<open>The function: \<open>None\<close> without a project folder, or when no metric was summarised.\<close>

definition analyze_project_metrics :: "string \<Rightarrow> string \<Rightarrow> project_dir option \<Rightarrow> dict option" where
  "analyze_project_metrics org_name project_name project_dir =
     (case project_dir of
        None \<Rightarrow> None
      | Some files \<Rightarrow>
          let results = project_results org_name project_name files
          in if length results > 3 then Some results else None)"

text \<open>\<open>analyze_top_projects_across_orgs\<close>: the loops that fill \<open>all_projects_data\<close>.\<close>

definition top_orgs_to_analyze :: "string list" where
  "top_orgs_to_analyze =
     [''microsoft'', ''google'', ''facebook'', ''apache'', ''tensorflow'', ''kubernetes'',
      ''docker'', ''nodejs'', ''python'', ''golang'', ''rust-lang'', ''pytorch'']"

definition all_projects_data :: "base_dir \<Rightarrow> dict list" where
  "all_projects_data base_dir =
     concat (map (\<lambda>(org_name, project_folders).
       if org_name \<in> set top_orgs_to_analyze then
         List.map_filter (\<lambda>(project_name, files).
           analyze_project_metrics org_name project_name (Some files)) project_folders
       else []) base_dir)"


section \<open>Properties of \<open>get_stars_count\<close>\<close>

lemma get_stars_count_comma_string: "get_stars_count (PStr ''12,345'') = Inr 12345"
  by (simp add: remove_commas_def isdigit_def is_digit_char_def py_int_str_def digit_val_def)

lemma get_stars_count_string_total: "\<exists>n. get_stars_count (PStr s) = Inr n"
  by (simp add: py_int_str_def Let_def)

lemma get_stars_count_non_numeric:
  "get_stars_count PNone = Inr 0"
  "get_stars_count POther = Inr 0"
  "get_stars_count (PStr ''n/a'') = Inr 0"
  by (simp_all add: remove_commas_def isdigit_def is_digit_char_def)

lemma get_stars_count_total_on_finite:
  "(\<forall>x. v \<noteq> PFloat x) \<or> (\<exists>r. v = PFloat (Finite r)) \<Longrightarrow> \<exists>n. get_stars_count v = Inr n"
  by (cases v) (auto simp: py_int_str_def Let_def)

lemma get_stars_count_truncates:
  "get_stars_count (PInt n) = Inr n"
  "get_stars_count (PFloat (Finite x)) = Inr (trunc x)"
  by simp_all

text \<open>
  C10.  The claim is that \<open>get_stars_count\<close> never raises and that every int or float
  yields its integer truncation.  The number branch calls \<open>int(stars)\<close> outside the
  \<open>try\<close>: on the float NaN it raises \<open>ValueError\<close>, on an infinite float
  \<open>OverflowError\<close>.  (\<open>json.load\<close> reads the literals \<open>NaN\<close> and \<open>Infinity\<close> as these
  floats.)
\<close>

theorem get_stars_count_raises_on_nan:
  "get_stars_count (PFloat FNaN) = Inl ValueError
   \<and> get_stars_count (PFloat PosInf) = Inl OverflowError
   \<and> get_stars_count (PFloat NegInf) = Inl OverflowError"
  by simp


section \<open>Properties of the classifier\<close>

lemma starts_with_iff: "starts_with s kw \<longleftrightarrow> (\<exists>q. s = kw @ q)"
  by (induction s kw rule: starts_with.induct) auto

text \<open>\<open>is_in\<close> is the substring test.\<close>

lemma is_in_iff: "is_in kw s \<longleftrightarrow> (\<exists>p q. s = p @ kw @ q)"
proof (induction s)
  case Nil
  show ?case by auto
next
  case (Cons c cs)
  have "(\<exists>p q. c # cs = p @ kw @ q) \<longleftrightarrow> (\<exists>q. c # cs = kw @ q) \<or> (\<exists>p q. cs = p @ kw @ q)"
  proof
    assume "\<exists>p q. c # cs = p @ kw @ q"
    then obtain p q where pq: "c # cs = p @ kw @ q" by blast
    show "(\<exists>q. c # cs = kw @ q) \<or> (\<exists>p q. cs = p @ kw @ q)"
    proof (cases p)
      case Nil
      with pq show ?thesis by auto
    next
      case (Cons a p')
      with pq have "cs = p' @ kw @ q" by simp
      then show ?thesis by blast
    qed
  next
    assume "(\<exists>q. c # cs = kw @ q) \<or> (\<exists>p q. cs = p @ kw @ q)"
    then show "\<exists>p q. c # cs = p @ kw @ q"
    proof
      assume "\<exists>q. c # cs = kw @ q"
      then obtain q where "c # cs = [] @ kw @ q" by auto
      then show ?thesis by blast
    next
      assume "\<exists>p q. cs = p @ kw @ q"
      then obtain p q where "c # cs = (c # p) @ kw @ q" by auto
      then show ?thesis by blast
    qed
  qed
  with Cons show ?case by (simp add: starts_with_iff)
qed











section \<open>Properties of the merge and the ranking\<close>

subsection \<open>Sorting and rank assignment\<close>

lemma goes_before_total: "\<not> goes_before a b \<Longrightarrow> goes_before b a"
  by (cases a; cases b) auto

lemma goes_before_trans: "goes_before a b \<Longrightarrow> goes_before b c \<Longrightarrow> goes_before a c"
  by (cases a; cases b; cases c) auto

lemma mset_insert_desc: "mset (insert_desc key r xs) = add_mset r (mset xs)"
  by (induction xs) auto

lemma mset_sort_values_desc: "mset (sort_values_desc key rows) = mset rows"
  by (induction rows) (auto simp: sort_values_desc_def mset_insert_desc)

lemma set_sort_values_desc: "set (sort_values_desc key rows) = set rows"
  using mset_sort_values_desc [of key rows] by (metis set_mset_mset)

lemma length_sort_values_desc: "length (sort_values_desc key rows) = length rows"
  using mset_sort_values_desc [of key rows] by (metis size_mset)

lemma set_insert_desc: "set (insert_desc key r xs) = insert r (set xs)"
  using mset_insert_desc [of key r xs] by (metis set_mset_mset set_mset_add_mset_insert)

lemma sorted_insert_desc:
  "sorted_wrt (\<lambda>a b. goes_before (key a) (key b)) xs
     \<Longrightarrow> sorted_wrt (\<lambda>a b. goes_before (key a) (key b)) (insert_desc key r xs)"
proof (induction xs)
  case Nil
  then show ?case by simp
next
  case (Cons x xs)
  show ?case
  proof (cases "goes_before (key r) (key x)")
    case True
    with Cons.prems show ?thesis
      by (auto intro: goes_before_trans)
  next
    case False
    then have "goes_before (key x) (key r)" by (rule goes_before_total)
    with False Cons show ?thesis
      by (auto simp: set_insert_desc)
  qed
qed

lemma sorted_sort_values_desc:
  "sorted_wrt (\<lambda>a b. goes_before (key a) (key b)) (sort_values_desc key rows)"
  by (induction rows) (auto simp: sort_values_desc_def sorted_insert_desc)

lemma goes_before_antisym: "goes_before a b \<Longrightarrow> goes_before b a \<Longrightarrow> a = b"
  by (cases a; cases b) auto

lemma sorted_cells_unique:
  assumes "sorted_wrt goes_before xs" and "sorted_wrt goes_before ys"
    and "mset xs = mset ys"
  shows "xs = ys"
  using assms
proof (induction xs arbitrary: ys)
  case Nil
  then show ?case by simp
next
  case (Cons x xs)
  from Cons.prems(3) have "ys \<noteq> []" by auto
  then obtain y ys' where ys: "ys = y # ys'" by (cases ys) auto
  have sx: "set (x # xs) = set (y # ys')"
    using Cons.prems(3) ys by (metis set_mset_mset)
  have "goes_before x y"
  proof (cases "x = y")
    case True
    then show ?thesis by (cases y) auto
  next
    case False
    with sx have "y \<in> set xs" by auto
    with Cons.prems(1) show ?thesis by simp
  qed
  moreover have "goes_before y x"
  proof (cases "x = y")
    case True
    then show ?thesis by (cases y) auto
  next
    case False
    with sx have "x \<in> set ys'" by auto
    with Cons.prems(2) ys show ?thesis by simp
  qed
  ultimately have xy: "x = y" by (rule goes_before_antisym)
  with Cons.prems(3) ys have "mset xs = mset ys'" by simp
  moreover from Cons.prems(1) have "sorted_wrt goes_before xs" by simp
  moreover from Cons.prems(2) ys have "sorted_wrt goes_before ys'" by simp
  ultimately have "xs = ys'" by (rule Cons.IH [rotated 2])
  with xy ys show ?case by simp
qed

text \<open>Every sorted arrangement of the rows has the keys in the same sequence.\<close>

lemma sorted_arrangement_keys:
  assumes "mset out = mset rows"
    and "sorted_wrt (\<lambda>a b. goes_before (key a) (key b)) out"
  shows "map key out = map key (sort_values_desc key rows)"
proof (rule sorted_cells_unique)
  show "sorted_wrt goes_before (map key out)"
    using assms(2) by (simp add: sorted_wrt_map)
  show "sorted_wrt goes_before (map key (sort_values_desc key rows))"
    by (simp add: sorted_wrt_map sorted_sort_values_desc)
  show "mset (map key out) = mset (map key (sort_values_desc key rows))"
    using assms(1) by (simp add: mset_sort_values_desc)
qed

lemma length_assign_ranks: "length (assign_ranks rows) = length rows"
  by (simp add: assign_ranks_def del: upt_Suc)

lemma nth_assign_ranks:
  "j < length rows \<Longrightarrow> assign_ranks rows ! j = (rows ! j)\<lparr>rank := Num (real (j + 1))\<rparr>"
  by (simp add: assign_ranks_def del: upt_Suc)

lemma drop_rank_assign_ranks: "map drop_rank (assign_ranks rows) = map drop_rank rows"
  by (rule nth_equalityI) (simp_all add: length_assign_ranks nth_assign_ranks drop_rank_def)

lemma has_openrank_assign_ranks:
  "j < length rows \<Longrightarrow> has_openrank (assign_ranks rows ! j) = has_openrank (rows ! j)"
  by (simp add: nth_assign_ranks has_openrank_def)

lemma map_rank_assign_ranks:
  "map rank (assign_ranks rows) = map (\<lambda>k. Num (real k)) [1 ..< length rows + 1]"
  by (rule nth_equalityI) (simp_all add: length_assign_ranks nth_assign_ranks del: upt_Suc)

lemma map_field_assign_ranks:
  "map openrank_latest (assign_ranks rows) = map openrank_latest rows"
  "map total_stars (assign_ranks rows) = map total_stars rows"
  by (rule nth_equalityI; simp add: length_assign_ranks nth_assign_ranks)+

lemma ranking_positions:
  fixes ext :: "project_row list"
  defines "w \<equiv> sort_values_desc openrank_latest (filter has_openrank ext)"
    and "wo \<equiv> sort_values_desc total_stars (filter (\<lambda>r. \<not> has_openrank r) ext)"
  defines "final \<equiv> assign_ranks (w @ wo)"
  shows "length final = length ext"
    and "length w = length (filter has_openrank ext)"
    and "j < length final \<Longrightarrow> has_openrank (final ! j) \<longleftrightarrow> j < length w"
    and "j < length final \<Longrightarrow> rank (final ! j) = Num (real (j + 1))"
    and "mset (map drop_rank final) = mset (map drop_rank ext)"
    and "sorted_wrt goes_before (map openrank_latest (take (length w) final))"
    and "sorted_wrt goes_before (map total_stars (drop (length w) final))"
proof -
  have lw: "length w = length (filter has_openrank ext)"
    by (simp add: w_def length_sort_values_desc)
  have lwo: "length wo = length (filter (\<lambda>r. \<not> has_openrank r) ext)"
    by (simp add: wo_def length_sort_values_desc)
  have "length (filter has_openrank ext) + length (filter (\<lambda>r. \<not> has_openrank r) ext)
          = length ext"
    by (rule sum_length_filter_compl)
  with lw lwo show len: "length final = length ext"
    by (simp add: final_def length_assign_ranks)
  show "length w = length (filter has_openrank ext)" by (rule lw)
  have w_has: "\<forall>r \<in> set w. has_openrank r"
    by (simp add: w_def set_sort_values_desc)
  have wo_has: "\<forall>r \<in> set wo. \<not> has_openrank r"
    by (simp add: wo_def set_sort_values_desc)
  show "has_openrank (final ! j) \<longleftrightarrow> j < length w" if j: "j < length final"
  proof -
    from j have j': "j < length (w @ wo)" by (simp add: final_def length_assign_ranks)
    then have "has_openrank (final ! j) = has_openrank ((w @ wo) ! j)"
      unfolding final_def by (rule has_openrank_assign_ranks)
    also have "\<dots> \<longleftrightarrow> j < length w"
    proof (cases "j < length w")
      case True
      then have "(w @ wo) ! j \<in> set w" by (simp add: nth_append)
      with w_has True show ?thesis by blast
    next
      case False
      with j' have "(w @ wo) ! j \<in> set wo" by (simp add: nth_append)
      with wo_has False show ?thesis by blast
    qed
    finally show ?thesis .
  qed
  show "rank (final ! j) = Num (real (j + 1))" if j: "j < length final"
  proof -
    from j have "j < length (w @ wo)" by (simp add: final_def length_assign_ranks)
    then show ?thesis unfolding final_def by (simp add: nth_assign_ranks)
  qed
  have "mset (map drop_rank final) = mset (map drop_rank (w @ wo))"
    by (simp add: final_def drop_rank_assign_ranks)
  also have "\<dots> = image_mset drop_rank (mset w + mset wo)" by simp
  also have "mset w + mset wo = mset ext"
    by (simp add: w_def wo_def mset_sort_values_desc)
  finally show "mset (map drop_rank final) = mset (map drop_rank ext)" by simp
  have "map openrank_latest (take (length w) final) = map openrank_latest w"
    by (simp add: final_def take_map [symmetric] map_field_assign_ranks)
  moreover have "sorted_wrt goes_before (map openrank_latest w)"
    unfolding w_def sorted_wrt_map by (rule sorted_sort_values_desc)
  ultimately show "sorted_wrt goes_before (map openrank_latest (take (length w) final))"
    by simp
  have "map total_stars (drop (length w) final) = map total_stars wo"
    by (simp add: final_def drop_map [symmetric] map_field_assign_ranks)
  moreover have "sorted_wrt goes_before (map total_stars wo)"
    unfolding wo_def sorted_wrt_map by (rule sorted_sort_values_desc)
  ultimately show "sorted_wrt goes_before (map total_stars (drop (length w) final))"
    by simp
qed


subsection \<open>The merged records\<close>

lemma drop_rank_from_top100:
  "drop_rank (from_top100 improved_df n row) = drop_rank (from_top100 improved_df 0 row)"
  by (simp add: from_top100_def drop_rank_def Let_def)

lemma add_top100_drop_rank:
  "map drop_rank (add_top100 E improved_df rows acc) =
     map drop_rank acc @
     map (\<lambda>row. drop_rank (from_top100 improved_df 0 row))
       (filter (\<lambda>row. t_full_name row \<notin> E) rows)"
proof (induction rows arbitrary: acc)
  case Nil
  show ?case by simp
next
  case (Cons row rows)
  show ?case
    by (simp add: Cons.IH drop_rank_from_top100 [of improved_df "length acc" row])
qed

lemma extended_projects_drop_rank:
  "map drop_rank (extended_projects c t i) =
     map (\<lambda>row. drop_rank (from_complete row)) c @
     map (\<lambda>row. drop_rank (from_top100 i 0 row))
       (filter (\<lambda>row. t_full_name row \<notin> c_full_name ` set c) t)"
proof -
  have "map full_name (map from_complete c) = map c_full_name c"
    by (simp add: from_complete_def)
  then have "set (map full_name (map from_complete c)) = c_full_name ` set c"
    by (simp only: set_map)
  then show ?thesis
    unfolding extended_projects_def Let_def add_top100_drop_rank
    by (simp add: comp_def)
qed

lemma load_and_merge_data_cases:
  "extended_projects c t i = [] \<Longrightarrow> load_and_merge_data c t i = Inl KeyError"
  "extended_projects c t i \<noteq> [] \<Longrightarrow>
     load_and_merge_data c t i =
       Inr (assign_ranks
             (sort_values_desc openrank_latest (filter has_openrank (extended_projects c t i)) @
              sort_values_desc total_stars
                (filter (\<lambda>r. \<not> has_openrank r) (extended_projects c t i))))"
  by (simp_all add: load_and_merge_data_def Let_def)

lemma load_and_merge_data_records:
  assumes "load_and_merge_data c t i = Inr final"
  shows "mset (map drop_rank final) =
           mset (map (\<lambda>row. drop_rank (from_complete row)) c) +
           mset (map (\<lambda>row. drop_rank (from_top100 i 0 row))
                  (filter (\<lambda>row. t_full_name row \<notin> c_full_name ` set c) t))"
proof -
  from assms have ne: "extended_projects c t i \<noteq> []"
    by (auto simp: load_and_merge_data_def Let_def)
  with assms have "final = assign_ranks
             (sort_values_desc openrank_latest (filter has_openrank (extended_projects c t i)) @
              sort_values_desc total_stars
                (filter (\<lambda>r. \<not> has_openrank r) (extended_projects c t i)))"
    by (simp add: load_and_merge_data_cases)
  then have "mset (map drop_rank final) = mset (map drop_rank (extended_projects c t i))"
    by (simp only: ranking_positions(5))
  then show ?thesis
    by (simp add: extended_projects_drop_rank)
qed

lemma filter_name_distinct:
  "distinct (map f xs) \<Longrightarrow> length (filter (\<lambda>m. f m = n) xs) \<le> 1"
proof (induction xs)
  case Nil
  show ?case by simp
next
  case (Cons x xs)
  show ?case
  proof (cases "f x = n")
    case True
    with Cons.prems have "n \<notin> f ` set xs" by simp
    then have "filter (\<lambda>m. f m = n) xs = []"
      by (auto simp: filter_empty_conv)
    with True show ?thesis by simp
  next
    case False
    with Cons show ?thesis by simp
  qed
qed

lemma short_lists_mset_eq:
  assumes "mset xs = mset ys" and "length xs \<le> 1"
  shows "xs = ys"
proof (cases xs)
  case Nil
  with assms show ?thesis by simp
next
  case (Cons x xs')
  with assms have "xs = [x]" by simp
  with assms show ?thesis by (metis mset_single_iff_right mset.simps(1,2))
qed

lemma lookup_improved_perm:
  assumes "mset i' = mset i" and "distinct (map i_full_name i)"
  shows "lookup_improved i' n = lookup_improved i n"
proof -
  have "mset (filter (\<lambda>m. i_full_name m = n) i) = mset (filter (\<lambda>m. i_full_name m = n) i')"
    using assms(1) by simp
  moreover have "length (filter (\<lambda>m. i_full_name m = n) i) \<le> 1"
    using assms(2) by (rule filter_name_distinct)
  ultimately have "filter (\<lambda>m. i_full_name m = n) i = filter (\<lambda>m. i_full_name m = n) i'"
    by (rule short_lists_mset_eq)
  then show ?thesis by (simp add: lookup_improved_def)
qed

lemma from_top100_perm:
  assumes "mset i' = mset i" and "distinct (map i_full_name i)"
  shows "from_top100 i' n row = from_top100 i n row"
  by (simp add: from_top100_def lookup_improved_perm [OF assms])

lemma extended_projects_perm:
  assumes "mset c' = mset c" and "mset t' = mset t" and "mset i' = mset i"
    and "distinct (map i_full_name i)"
  shows "mset (map drop_rank (extended_projects c' t' i')) =
         mset (map drop_rank (extended_projects c t i))"
proof -
  have s: "set c' = set c" using assms(1) by (metis set_mset_mset)
  have f: "mset (filter (\<lambda>row. t_full_name row \<notin> c_full_name ` set c) t') =
        mset (filter (\<lambda>row. t_full_name row \<notin> c_full_name ` set c) t)"
    using assms(2) by (simp only: mset_filter)
  have top: "mset (map (\<lambda>row. drop_rank (from_top100 i 0 row))
                (filter (\<lambda>row. t_full_name row \<notin> c_full_name ` set c) t')) =
             mset (map (\<lambda>row. drop_rank (from_top100 i 0 row))
                (filter (\<lambda>row. t_full_name row \<notin> c_full_name ` set c) t))"
    using f by (simp only: mset_map)
  have com: "mset (map (\<lambda>row. drop_rank (from_complete row)) c') =
                 mset (map (\<lambda>row. drop_rank (from_complete row)) c)"
    using assms(1) by (simp only: mset_map)
  have "map drop_rank (extended_projects c' t' i') =
          map (\<lambda>row. drop_rank (from_complete row)) c' @
          map (\<lambda>row. drop_rank (from_top100 i 0 row))
            (filter (\<lambda>row. t_full_name row \<notin> c_full_name ` set c) t')"
    by (simp only: extended_projects_drop_rank s from_top100_perm [OF assms(3,4)])
  then have "mset (map drop_rank (extended_projects c' t' i')) =
          mset (map (\<lambda>row. drop_rank (from_complete row)) c) +
          mset (map (\<lambda>row. drop_rank (from_top100 i 0 row))
            (filter (\<lambda>row. t_full_name row \<notin> c_full_name ` set c) t))"
    by (simp only: mset_append top com)
  also have "\<dots> = mset (map drop_rank (extended_projects c t i))"
    by (simp only: extended_projects_drop_rank mset_append)
  finally show ?thesis .
qed

lemmas example_defs = example_zero_def example_nan_def example_ranked_def
  example_complete_repo_def example_top100_def example_improved_def example_improved_low_def

lemmas run_defs = load_and_merge_data_def extended_projects_def from_complete_def
  from_top100_def lookup_improved_def has_openrank_def sort_values_desc_def assign_ranks_def


lemma drop_rank_eq_fields:
  assumes "drop_rank r = drop_rank x"
  shows "org r = org x" "project r = project x" "full_name r = full_name x"
    "total_stars r = total_stars x" "monthly_stars_latest r = monthly_stars_latest x"
    "activity_latest r = activity_latest x" "openrank_latest r = openrank_latest x"
    "source r = source x"
  using arg_cong [OF assms, of org] arg_cong [OF assms, of project]
    arg_cong [OF assms, of full_name] arg_cong [OF assms, of total_stars]
    arg_cong [OF assms, of monthly_stars_latest] arg_cong [OF assms, of activity_latest]
    arg_cong [OF assms, of openrank_latest] arg_cong [OF assms, of source]
  by (simp_all add: drop_rank_def)

lemma has_openrank_drop_rank: "drop_rank r = drop_rank x \<Longrightarrow> has_openrank r = has_openrank x"
  using drop_rank_eq_fields(7) [of r x] by (simp add: has_openrank_def)

lemma lookup_improved_None:
  "lookup_improved improved_df name = None \<longleftrightarrow> name \<notin> i_full_name ` set improved_df"
proof
  assume "lookup_improved improved_df name = None"
  then have "filter (\<lambda>m. i_full_name m = name) improved_df = []"
    by (simp add: lookup_improved_def split: list.splits)
  then show "name \<notin> i_full_name ` set improved_df"
    by (auto simp: filter_empty_conv)
next
  assume "name \<notin> i_full_name ` set improved_df"
  then have "filter (\<lambda>m. i_full_name m = name) improved_df = []"
    by (auto simp: filter_empty_conv)
  then show "lookup_improved improved_df name = None"
    by (simp add: lookup_improved_def)
qed

lemma lookup_improved_Some:
  "lookup_improved improved_df name = Some v \<Longrightarrow>
     \<exists>m \<in> set improved_df. i_full_name m = name \<and> i_openrank_latest m = v"
proof -
  assume a: "lookup_improved improved_df name = Some v"
  then obtain m ms where f: "filter (\<lambda>m. i_full_name m = name) improved_df = m # ms"
    and v: "v = i_openrank_latest m"
    by (auto simp: lookup_improved_def split: list.splits)
  from f have "m \<in> set (filter (\<lambda>m. i_full_name m = name) improved_df)" by simp
  with v show ?thesis by auto
qed

lemma final_record_cases:
  assumes "load_and_merge_data c t i = Inr final" and "r \<in> set final"
  shows "(\<exists>row \<in> set c. drop_rank r = drop_rank (from_complete row))
       \<or> (\<exists>row \<in> set t. t_full_name row \<notin> c_full_name ` set c
              \<and> drop_rank r = drop_rank (from_top100 i 0 row))"
proof -
  from assms(2) have "drop_rank r \<in># mset (map drop_rank final)" by simp
  then have "drop_rank r \<in># mset (map (\<lambda>row. drop_rank (from_complete row)) c) +
           mset (map (\<lambda>row. drop_rank (from_top100 i 0 row))
                  (filter (\<lambda>row. t_full_name row \<notin> c_full_name ` set c) t))"
    by (simp only: load_and_merge_data_records [OF assms(1)])
  then show ?thesis by auto
qed

lemma source_from [simp]:
  "source (from_complete row) = ''complete_ranking''"
  "source (from_top100 i n trow) = ''top100_only''"
  by (simp_all add: from_complete_def from_top100_def Let_def)


subsection \<open>The ranking\<close>

text \<open>
  C1, as the code has it.  Whenever the merged table has at least one project,
  \<open>load_and_merge_data\<close> returns a table with the same records (ranks apart), whose ranks
  are \<open>1..N\<close> in order of position.  Its first \<open>n\<close> rows are the records with
  \<open>openrank_latest > 0\<close>, by \<open>openrank_latest\<close> descending; the other rows are the
  records whose openrank is \<open>NaN\<close>, the placeholder \<open>0.0\<close> or any value not above zero,
  by \<open>total_stars\<close> descending with \<open>NaN\<close> last.  Every record of the second group has a
  rank strictly greater than every record of the first.
\<close>

theorem load_and_merge_data_ranking:
  assumes ne: "extended_projects c t i \<noteq> []"
  shows "\<exists>final n.
     load_and_merge_data c t i = Inr final
   \<and> mset (map drop_rank final) = mset (map drop_rank (extended_projects c t i))
   \<and> map rank final = map (\<lambda>k. Num (real k)) [1 ..< length (extended_projects c t i) + 1]
   \<and> n = length (filter has_openrank (extended_projects c t i))
   \<and> list_all has_openrank (take n final)
   \<and> list_all (\<lambda>r. \<not> has_openrank r) (drop n final)
   \<and> sorted_wrt goes_before (map openrank_latest (take n final))
   \<and> sorted_wrt goes_before (map total_stars (drop n final))
   \<and> (\<forall>a \<in> set final. \<forall>b \<in> set final.
         has_openrank a \<and> \<not> has_openrank b \<longrightarrow> cell_gt (rank b) (rank a))"
proof -
  define ext where "ext = extended_projects c t i"
  define w where "w = sort_values_desc openrank_latest (filter has_openrank ext)"
  define wo where "wo = sort_values_desc total_stars (filter (\<lambda>r. \<not> has_openrank r) ext)"
  define final where "final = assign_ranks (w @ wo)"
  define n where "n = length w"
  note pos = ranking_positions [where ext = ext, folded w_def wo_def, folded final_def, folded n_def]
  have res: "load_and_merge_data c t i = Inr final"
    using ne by (simp add: load_and_merge_data_cases final_def w_def wo_def ext_def)
  have len: "length final = length ext" by (rule pos(1))
  have part: "has_openrank (final ! j) \<longleftrightarrow> j < n" if "j < length final" for j
    using that by (rule pos(3))
  have rk: "rank (final ! j) = Num (real (j + 1))" if "j < length final" for j
    using that by (rule pos(4))
  have ranks: "map rank final = map (\<lambda>k. Num (real k)) [1 ..< length ext + 1]"
    unfolding final_def map_rank_assign_ranks
    using len by (simp add: final_def length_assign_ranks)
  have n_le: "n \<le> length final"
    using pos(2) len by (simp add: n_def)
  have first: "list_all has_openrank (take n final)"
    using part n_le by (simp add: list_all_length)
  have second: "list_all (\<lambda>r. \<not> has_openrank r) (drop n final)"
    using part by (simp add: list_all_length)
  have after: "cell_gt (rank b) (rank a)"
    if a: "a \<in> set final" and b: "b \<in> set final" and ha: "has_openrank a"
      and hb: "\<not> has_openrank b" for a b
  proof -
    from a obtain p where p: "p < length final" "final ! p = a"
      by (auto simp: in_set_conv_nth)
    from b obtain q where q: "q < length final" "final ! q = b"
      by (auto simp: in_set_conv_nth)
    from p ha part [of p] have "p < n" by simp
    moreover from q hb part [of q] have "\<not> q < n" by simp
    ultimately have "p < q" by simp
    moreover have "rank a = Num (real (p + 1))" using rk [of p] p by simp
    moreover have "rank b = Num (real (q + 1))" using rk [of q] q by simp
    ultimately show ?thesis by simp
  qed
  have n_eq: "n = length (filter has_openrank ext)" by (rule pos(2))
  have after': "\<forall>a \<in> set final. \<forall>b \<in> set final.
         has_openrank a \<and> \<not> has_openrank b \<longrightarrow> cell_gt (rank b) (rank a)"
    using after by blast
  show ?thesis
    unfolding ext_def [symmetric]
    apply (rule exI [of _ final])
    apply (rule exI [of _ n])
    apply (intro conjI)
            apply (rule res)
           apply (rule pos(5))
          apply (rule ranks)
         apply (rule n_eq)
        apply (rule first)
       apply (rule second)
      apply (rule pos(6))
     apply (rule pos(7))
    apply (rule after')
    done
qed

theorem load_and_merge_data_ranking_witness:
  "extended_projects [example_zero, example_nan, example_ranked] [example_top100] [] \<noteq> []
   \<and> (\<exists>final.
         load_and_merge_data [example_zero, example_nan, example_ranked] [example_top100] []
           = Inr final
       \<and> map rank final = [Num 1, Num 2, Num 3, Num 4]
       \<and> list_all has_openrank (take 1 final)
       \<and> list_all (\<lambda>r. \<not> has_openrank r) (drop 1 final))"
proof -
  let ?c = "[example_zero, example_nan, example_ranked]"
  have e: "extended_projects ?c [example_top100] [] =
             [from_complete example_zero, from_complete example_nan,
              from_complete example_ranked, from_top100 [] 3 example_top100]"
    by (simp add: extended_projects_def from_complete_def example_defs numeral_3_eq_3)
  have ne: "extended_projects ?c [example_top100] [] \<noteq> []"
    by (simp add: e)
  have n: "length (filter has_openrank (extended_projects ?c [example_top100] [])) = 1"
    unfolding e
    by (simp add: has_openrank_def from_complete_def from_top100_def lookup_improved_def
          example_defs)
  have l: "map (\<lambda>k. Num (real k)) [1 ..< length (extended_projects ?c [example_top100] []) + 1]
             = [Num 1, Num 2, Num 3, Num 4]"
    unfolding e by simp
  note th = load_and_merge_data_ranking [OF ne, unfolded n l]
  then obtain final where
    f: "load_and_merge_data ?c [example_top100] [] = Inr final"
      "map rank final = [Num 1, Num 2, Num 3, Num 4]"
      "list_all has_openrank (take 1 final)"
      "list_all (\<lambda>r. \<not> has_openrank r) (drop 1 final)"
    by (elim exE conjE) simp
  show ?thesis
    by (intro conjI exI [of _ final]) (rule ne f)+
qed

text \<open>
  The claim as stated fails in two places.  With no project at all the function raises
  \<open>KeyError\<close> instead of returning an empty ranking.  And a record that has an openrank
  of zero is put in the second group: it is ranked after a record whose openrank is missing
  (\<open>NaN\<close>) and that has more stars.
\<close>

theorem load_and_merge_data_ranking_counterexample:
  "load_and_merge_data [] [] [] = Inl KeyError
   \<and> openrank_latest (from_complete example_zero) = Num 0
   \<and> openrank_latest (from_complete example_nan) = NaN
   \<and> load_and_merge_data [example_zero, example_nan] [] [] =
       Inr [(from_complete example_nan)\<lparr>rank := Num 1\<rparr>,
            (from_complete example_zero)\<lparr>rank := Num 2\<rparr>]"
  by (simp add: run_defs example_defs)


subsection \<open>What the merge takes from which table\<close>

text \<open>
  C7, as the code has it.  The records of the result, ranks apart, are the rows of the
  complete ranking, each taken over whole, and one record for each top-100 row whose
  \<open>full_name\<close> is not in the complete ranking.  Only such a record is put together from two
  tables: stars and activity from the top-100 row, openrank from the first row of the
  improved analysis with the same name (\<open>0.0\<close> when there is none).  For a name that is in
  the complete ranking, the top-100 and improved rows are ignored.  Provenance is one
  \<open>source\<close> tag for the whole record, \<open>complete_ranking\<close> or \<open>top100_only\<close>, not one
  per field.
\<close>

theorem merge_keeps_complete_rows_whole:
  assumes res: "load_and_merge_data c t i = Inr final"
  shows "mset (map drop_rank final) =
           mset (map (\<lambda>row. drop_rank (from_complete row)) c) +
           mset (map (\<lambda>row. drop_rank (from_top100 i 0 row))
                  (filter (\<lambda>row. t_full_name row \<notin> c_full_name ` set c) t))
   \<and> (\<forall>r \<in> set final. full_name r \<in> c_full_name ` set c \<longrightarrow>
         (\<exists>row \<in> set c. drop_rank r = drop_rank (from_complete row)))
   \<and> (\<forall>r \<in> set final. full_name r \<notin> c_full_name ` set c \<longrightarrow>
         (\<exists>row \<in> set t. full_name r = t_full_name row
            \<and> total_stars r = t_stars row
            \<and> activity_latest r = t_activity row
            \<and> openrank_latest r =
                 (case lookup_improved i (t_full_name row) of None \<Rightarrow> Num 0 | Some v \<Rightarrow> v)
            \<and> source r = ''top100_only''))
   \<and> (\<forall>r \<in> set final. source r = ''complete_ranking'' \<or> source r = ''top100_only'')"
proof (intro conjI ballI impI)
  show "mset (map drop_rank final) =
           mset (map (\<lambda>row. drop_rank (from_complete row)) c) +
           mset (map (\<lambda>row. drop_rank (from_top100 i 0 row))
                  (filter (\<lambda>row. t_full_name row \<notin> c_full_name ` set c) t))"
    by (rule load_and_merge_data_records [OF res])
next
  fix r assume r: "r \<in> set final" and n: "full_name r \<in> c_full_name ` set c"
  from final_record_cases [OF res r]
  show "\<exists>row \<in> set c. drop_rank r = drop_rank (from_complete row)"
  proof
    assume "\<exists>row \<in> set c. drop_rank r = drop_rank (from_complete row)"
    then show ?thesis .
  next
    assume "\<exists>row \<in> set t. t_full_name row \<notin> c_full_name ` set c
              \<and> drop_rank r = drop_rank (from_top100 i 0 row)"
    then obtain row where row: "t_full_name row \<notin> c_full_name ` set c"
      "drop_rank r = drop_rank (from_top100 i 0 row)" by blast
    from drop_rank_eq_fields(3) [OF row(2)] have "full_name r = t_full_name row"
      by (simp add: from_top100_def Let_def)
    with n row(1) show ?thesis by simp
  qed
next
  fix r assume r: "r \<in> set final" and n: "full_name r \<notin> c_full_name ` set c"
  from final_record_cases [OF res r]
  show "\<exists>row \<in> set t. full_name r = t_full_name row
            \<and> total_stars r = t_stars row
            \<and> activity_latest r = t_activity row
            \<and> openrank_latest r =
                 (case lookup_improved i (t_full_name row) of None \<Rightarrow> Num 0 | Some v \<Rightarrow> v)
            \<and> source r = ''top100_only''"
  proof
    assume "\<exists>row \<in> set c. drop_rank r = drop_rank (from_complete row)"
    then obtain row where row: "row \<in> set c" "drop_rank r = drop_rank (from_complete row)"
      by blast
    from drop_rank_eq_fields(3) [OF row(2)] have "full_name r = c_full_name row"
      by (simp add: from_complete_def)
    with n row(1) show ?thesis by simp
  next
    assume "\<exists>row \<in> set t. t_full_name row \<notin> c_full_name ` set c
              \<and> drop_rank r = drop_rank (from_top100 i 0 row)"
    then obtain row where row: "row \<in> set t"
      "drop_rank r = drop_rank (from_top100 i 0 row)" by blast
    note f = drop_rank_eq_fields [OF row(2)]
    have "full_name r = t_full_name row" "total_stars r = t_stars row"
      "activity_latest r = t_activity row"
      "openrank_latest r =
         (case lookup_improved i (t_full_name row) of None \<Rightarrow> Num 0 | Some v \<Rightarrow> v)"
      "source r = ''top100_only''"
      using f by (simp_all add: from_top100_def Let_def)
    with row(1) show ?thesis by blast
  qed
next
  fix r assume r: "r \<in> set final"
  from final_record_cases [OF res r]
  show "source r = ''complete_ranking'' \<or> source r = ''top100_only''"
  proof
    assume "\<exists>row \<in> set c. drop_rank r = drop_rank (from_complete row)"
    then obtain row where "drop_rank r = drop_rank (from_complete row)" by blast
    from drop_rank_eq_fields(8) [OF this] show ?thesis by simp
  next
    assume "\<exists>row \<in> set t. t_full_name row \<notin> c_full_name ` set c
              \<and> drop_rank r = drop_rank (from_top100 i 0 row)"
    then obtain row where "drop_rank r = drop_rank (from_top100 i 0 row)" by blast
    from drop_rank_eq_fields(8) [OF this] show ?thesis by simp
  qed
qed

text \<open>
  The scenario of the claim with the top-100 table as source A and the improved analysis as
  source B: stars 500, openrank 7.2, one source tag.
\<close>

theorem merge_keeps_complete_rows_whole_witness:
  "load_and_merge_data [] [example_top100] [example_improved] =
     Inr [\<lparr>rank = Num 1, org = ''org'', project = ''repo'', full_name = ''org/repo'',
           total_stars = Num 500, monthly_stars_latest = Num 500, activity_latest = Num 3,
           openrank_latest = Num 7.2, source = ''top100_only''\<rparr>]
   \<and> mset (map drop_rank
        [\<lparr>rank = Num 1, org = ''org'', project = ''repo'', full_name = ''org/repo'',
           total_stars = Num 500, monthly_stars_latest = Num 500, activity_latest = Num 3,
           openrank_latest = Num 7.2, source = ''top100_only''\<rparr>]) =
       {#drop_rank (from_top100 [example_improved] 0 example_top100)#}"
proof -
  have r: "load_and_merge_data [] [example_top100] [example_improved] =
     Inr [\<lparr>rank = Num 1, org = ''org'', project = ''repo'', full_name = ''org/repo'',
           total_stars = Num 500, monthly_stars_latest = Num 500, activity_latest = Num 3,
           openrank_latest = Num 7.2, source = ''top100_only''\<rparr>]"
    by (simp add: run_defs example_defs)
  have "mset (map drop_rank
        [\<lparr>rank = Num 1, org = ''org'', project = ''repo'', full_name = ''org/repo'',
           total_stars = Num 500, monthly_stars_latest = Num 500, activity_latest = Num 3,
           openrank_latest = Num 7.2, source = ''top100_only''\<rparr>]) =
       {#drop_rank (from_top100 [example_improved] 0 example_top100)#}"
    using merge_keeps_complete_rows_whole [OF r, THEN conjunct1] by simp
  with r show ?thesis by (rule conjI)
qed

text \<open>
  The claim as stated fails when source A is the complete ranking: its row for
  \<open>org/repo\<close> has 500 stars and no openrank, the improved analysis has openrank 7.2 for
  \<open>org/repo\<close>, and the merged record still has no openrank.
\<close>

theorem merge_keeps_complete_rows_whole_counterexample:
  "load_and_merge_data [example_complete_repo] [example_top100] [example_improved] =
     Inr [\<lparr>rank = Num 1, org = ''org'', project = ''repo'', full_name = ''org/repo'',
           total_stars = Num 500, monthly_stars_latest = Num 20, activity_latest = Num 3,
           openrank_latest = NaN, source = ''complete_ranking''\<rparr>]"
  by (simp add: run_defs example_defs)


subsection \<open>The order of the input rows\<close>

lemma drop_rank_keeps:
  "has_openrank (drop_rank r) = has_openrank r"
  "openrank_latest (drop_rank r) = openrank_latest r"
  "total_stars (drop_rank r) = total_stars r"
  "sort_key (drop_rank r) = sort_key r"
  by (simp_all add: drop_rank_def has_openrank_def sort_key_def)

lemma map_key_assign_ranks:
  "map has_openrank (assign_ranks rows) = map has_openrank rows"
  "map sort_key (assign_ranks rows) = map sort_key rows"
  by (rule nth_equalityI;
      simp add: length_assign_ranks nth_assign_ranks has_openrank_def sort_key_def)+

lemma map_constant: "\<forall>x \<in> set xs. f x = c \<Longrightarrow> map f xs = replicate (length xs) c"
  by (induction xs) auto

lemma part_keys_mset:
  assumes eq: "mset (map drop_rank ext') = mset (map drop_rank ext)"
    and K: "\<And>r. K (drop_rank r) = K r" and P: "\<And>r. P (drop_rank r) = P r"
  shows "mset (map K (filter P ext')) = mset (map K (filter P ext))"
proof -
  have l: "map K (filter P (map drop_rank xs)) = map K (filter P xs)" for xs
    by (induction xs) (simp_all add: K P)
  have "mset (map K (filter P (map drop_rank ext'))) =
        mset (map K (filter P (map drop_rank ext)))"
    using eq by (metis mset_filter mset_map)
  then show ?thesis by (simp only: l)
qed

lemma ranking_key_sequence:
  fixes ext ext' :: "project_row list"
  assumes eq: "mset (map drop_rank ext') = mset (map drop_rank ext)"
  defines "final \<equiv> assign_ranks
      (sort_values_desc openrank_latest (filter has_openrank ext) @
       sort_values_desc total_stars (filter (\<lambda>r. \<not> has_openrank r) ext))"
    and "final' \<equiv> assign_ranks
      (sort_values_desc openrank_latest (filter has_openrank ext') @
       sort_values_desc total_stars (filter (\<lambda>r. \<not> has_openrank r) ext'))"
  shows "map rank final' = map rank final"
    and "map has_openrank final' = map has_openrank final"
    and "map sort_key final' = map sort_key final"
proof -
  define w where "w = sort_values_desc openrank_latest (filter has_openrank ext)"
  define wo where "wo = sort_values_desc total_stars (filter (\<lambda>r. \<not> has_openrank r) ext)"
  define w' where "w' = sort_values_desc openrank_latest (filter has_openrank ext')"
  define wo' where "wo' = sort_values_desc total_stars (filter (\<lambda>r. \<not> has_openrank r) ext')"
  have f: "final = assign_ranks (w @ wo)" "final' = assign_ranks (w' @ wo')"
    by (simp_all add: final_def final'_def w_def wo_def w'_def wo'_def)
  have kw: "mset (map openrank_latest w') = mset (map openrank_latest w)"
    using part_keys_mset [OF eq, of openrank_latest has_openrank]
    by (simp add: w_def w'_def mset_sort_values_desc drop_rank_keeps)
  have kwo: "mset (map total_stars wo') = mset (map total_stars wo)"
    using part_keys_mset [OF eq, of total_stars "\<lambda>r. \<not> has_openrank r"]
    by (simp add: wo_def wo'_def mset_sort_values_desc drop_rank_keeps)
  have sw: "sorted_wrt goes_before (map openrank_latest w)"
    "sorted_wrt goes_before (map openrank_latest w')"
    by (simp_all add: w_def w'_def sorted_wrt_map sorted_sort_values_desc)
  have swo: "sorted_wrt goes_before (map total_stars wo)"
    "sorted_wrt goes_before (map total_stars wo')"
    by (simp_all add: wo_def wo'_def sorted_wrt_map sorted_sort_values_desc)
  have ew: "map openrank_latest w' = map openrank_latest w"
    using sw(2) sw(1) kw by (rule sorted_cells_unique)
  have ewo: "map total_stars wo' = map total_stars wo"
    using swo(2) swo(1) kwo by (rule sorted_cells_unique)
  have lw: "length w' = length w" using ew by (metis length_map)
  have lwo: "length wo' = length wo" using ewo by (metis length_map)
  have hw: "\<forall>r \<in> set w. has_openrank r" "\<forall>r \<in> set w'. has_openrank r"
    by (simp_all add: w_def w'_def set_sort_values_desc)
  have hwo: "\<forall>r \<in> set wo. \<not> has_openrank r" "\<forall>r \<in> set wo'. \<not> has_openrank r"
    by (simp_all add: wo_def wo'_def set_sort_values_desc)
  show "map rank final' = map rank final"
    by (simp add: f map_rank_assign_ranks lw lwo del: upt_Suc)
  have "map has_openrank (w @ wo) = replicate (length w) True @ replicate (length wo) False"
    using hw(1) hwo(1) by (simp add: map_constant)
  moreover have "map has_openrank (w' @ wo') =
      replicate (length w') True @ replicate (length wo') False"
    using hw(2) hwo(2) by (simp add: map_constant)
  ultimately show "map has_openrank final' = map has_openrank final"
    by (simp only: f map_key_assign_ranks lw lwo)
  have "map sort_key (w @ wo) = map openrank_latest w @ map total_stars wo"
    using hw(1) hwo(1) by (simp add: sort_key_def)
  moreover have "map sort_key (w' @ wo') = map openrank_latest w' @ map total_stars wo'"
    using hw(2) hwo(2) by (simp add: sort_key_def)
  ultimately show "map sort_key final' = map sort_key final"
    by (simp only: f map_key_assign_ranks ew ewo)
qed

text \<open>
  C8, as the code has it.  The priority of the sources is fixed by the code: the complete
  ranking, then the top-100 table, with the improved analysis only as a lookup.  When no
  \<open>full_name\<close> occurs twice in the improved analysis, reordering the rows inside each of
  the three tables changes neither whether the function returns nor the records it
  returns, ranks apart: for every identity the merged records are the same.  The ranks
  \<open>1..N\<close>, the split into the two parts and the sequence of sort keys by rank are the
  same too, so a record whose sort key no other record of its part shares has the same
  rank in both orders.  Which of several records with equal sort keys comes first is left
  open.
\<close>

theorem merge_independent_of_row_order:
  assumes "mset c' = mset c" and "mset t' = mset t" and "mset i' = mset i"
    and "distinct (map i_full_name i)"
  shows "map_sum id (\<lambda>final. mset (map drop_rank final)) (load_and_merge_data c' t' i') =
         map_sum id (\<lambda>final. mset (map drop_rank final)) (load_and_merge_data c t i)
   \<and> (\<forall>final final'.
         load_and_merge_data c t i = Inr final \<and> load_and_merge_data c' t' i' = Inr final' \<longrightarrow>
           map rank final' = map rank final
         \<and> map has_openrank final' = map has_openrank final
         \<and> map sort_key final' = map sort_key final
         \<and> (\<forall>r \<in> set final. \<forall>r' \<in> set final'.
               drop_rank r' = drop_rank r
               \<and> (\<forall>x \<in> set final.
                     has_openrank x = has_openrank r \<and> sort_key x = sort_key r \<longrightarrow> x = r)
               \<longrightarrow> rank r' = rank r))"
proof (intro conjI allI impI ballI)
  have e: "mset (map drop_rank (extended_projects c' t' i')) =
           mset (map drop_rank (extended_projects c t i))"
    using assms by (rule extended_projects_perm)
  have m: "map_sum id (\<lambda>final. mset (map drop_rank final)) (load_and_merge_data a b d) =
           (if extended_projects a b d = [] then Inl KeyError
            else Inr (mset (map drop_rank (extended_projects a b d))))" for a b d
  proof (cases "extended_projects a b d = []")
    case True
    then show ?thesis by (simp add: load_and_merge_data_cases(1))
  next
    case False
    then show ?thesis
      by (simp only: load_and_merge_data_cases(2) [OF False] map_sum.simps
            ranking_positions(5) if_False)
  qed
  have "extended_projects c' t' i' = [] \<longleftrightarrow> extended_projects c t i = []"
    using e by (metis map_is_Nil_conv mset_zero_iff)
  with e show "map_sum id (\<lambda>final. mset (map drop_rank final)) (load_and_merge_data c' t' i') =
         map_sum id (\<lambda>final. mset (map drop_rank final)) (load_and_merge_data c t i)"
    by (simp only: m)
  fix final final'
  assume both: "load_and_merge_data c t i = Inr final \<and> load_and_merge_data c' t' i' = Inr final'"
  define ext where "ext = extended_projects c t i"
  define ext' where "ext' = extended_projects c' t' i'"
  from both have ne: "ext \<noteq> []" "ext' \<noteq> []"
    by (auto simp: ext_def ext'_def load_and_merge_data_def Let_def)
  have fin: "final = assign_ranks
      (sort_values_desc openrank_latest (filter has_openrank ext) @
       sort_values_desc total_stars (filter (\<lambda>r. \<not> has_openrank r) ext))"
    using both ne(1) by (simp add: ext_def load_and_merge_data_cases(2))
  have fin': "final' = assign_ranks
      (sort_values_desc openrank_latest (filter has_openrank ext') @
       sort_values_desc total_stars (filter (\<lambda>r. \<not> has_openrank r) ext'))"
    using both ne(2) by (simp add: ext'_def load_and_merge_data_cases(2))
  have e': "mset (map drop_rank ext') = mset (map drop_rank ext)"
    using e by (simp only: ext_def ext'_def)
  note seq = ranking_key_sequence [OF e', folded fin fin']
  show rk: "map rank final' = map rank final" by (rule seq(1))
  show hs: "map has_openrank final' = map has_openrank final" by (rule seq(2))
  show ks: "map sort_key final' = map sort_key final" by (rule seq(3))
  have len: "length final' = length final" using rk by (metis length_map)
  have pos: "rank (final ! p) = Num (real (p + 1))" if "p < length final" for p
    using that unfolding fin by (rule ranking_positions(4))
  have pos': "rank (final' ! p) = Num (real (p + 1))" if "p < length final'" for p
    using that unfolding fin' by (rule ranking_positions(4))
  fix r r'
  assume r: "r \<in> set final" and r': "r' \<in> set final'"
    and h: "drop_rank r' = drop_rank r
           \<and> (\<forall>x \<in> set final.
                 has_openrank x = has_openrank r \<and> sort_key x = sort_key r \<longrightarrow> x = r)"
  from r' obtain q where q: "q < length final'" "final' ! q = r'"
    by (auto simp: in_set_conv_nth)
  from q(1) len have ql: "q < length final" by simp
  from h have dr: "drop_rank r' = drop_rank r" by simp
  have "has_openrank r' = has_openrank r" using dr by (rule has_openrank_drop_rank)
  moreover have "has_openrank (final ! q) = has_openrank (final' ! q)"
    using hs ql q(1) by (metis nth_map)
  ultimately have a: "has_openrank (final ! q) = has_openrank r" using q(2) by simp
  have "sort_key r' = sort_key r" using dr by (metis drop_rank_keeps(4))
  moreover have "sort_key (final ! q) = sort_key (final' ! q)"
    using ks ql q(1) by (metis nth_map)
  ultimately have b: "sort_key (final ! q) = sort_key r" using q(2) by simp
  from ql have "final ! q \<in> set final" by simp
  with h a b have "final ! q = r" by blast
  with pos [OF ql] have "rank r = Num (real (q + 1))" by simp
  moreover from pos' [OF q(1)] q(2) have "rank r' = Num (real (q + 1))" by simp
  ultimately show "rank r' = rank r" by simp
qed

theorem merge_independent_of_row_order_witness:
  "mset [example_ranked, example_nan, example_zero] =
     mset [example_zero, example_nan, example_ranked]
   \<and> distinct (map i_full_name [example_improved_low])
   \<and> load_and_merge_data [example_zero, example_nan, example_ranked] [example_top100]
         [example_improved_low] =
       Inr [(from_complete example_ranked)\<lparr>rank := Num 1\<rparr>,
            (from_top100 [example_improved_low] 0 example_top100)\<lparr>rank := Num 2\<rparr>,
            (from_complete example_nan)\<lparr>rank := Num 3\<rparr>,
            (from_complete example_zero)\<lparr>rank := Num 4\<rparr>]
   \<and> load_and_merge_data [example_ranked, example_nan, example_zero] [example_top100]
         [example_improved_low] =
       Inr [(from_complete example_ranked)\<lparr>rank := Num 1\<rparr>,
            (from_top100 [example_improved_low] 0 example_top100)\<lparr>rank := Num 2\<rparr>,
            (from_complete example_nan)\<lparr>rank := Num 3\<rparr>,
            (from_complete example_zero)\<lparr>rank := Num 4\<rparr>]
   \<and> map_sum id (\<lambda>final. mset (map drop_rank final))
        (load_and_merge_data [example_ranked, example_nan, example_zero] [example_top100]
           [example_improved_low]) =
      map_sum id (\<lambda>final. mset (map drop_rank final))
        (load_and_merge_data [example_zero, example_nan, example_ranked] [example_top100]
           [example_improved_low])"
proof -
  have p: "mset [example_ranked, example_nan, example_zero] =
     mset [example_zero, example_nan, example_ranked]"
    by (simp add: add_mset_commute)
  have d: "distinct (map i_full_name [example_improved_low])" by simp
  have run: "load_and_merge_data [example_zero, example_nan, example_ranked] [example_top100]
         [example_improved_low] =
       Inr [(from_complete example_ranked)\<lparr>rank := Num 1\<rparr>,
            (from_top100 [example_improved_low] 0 example_top100)\<lparr>rank := Num 2\<rparr>,
            (from_complete example_nan)\<lparr>rank := Num 3\<rparr>,
            (from_complete example_zero)\<lparr>rank := Num 4\<rparr>]"
    by (simp add: run_defs example_defs)
  have run': "load_and_merge_data [example_ranked, example_nan, example_zero] [example_top100]
         [example_improved_low] =
       Inr [(from_complete example_ranked)\<lparr>rank := Num 1\<rparr>,
            (from_top100 [example_improved_low] 0 example_top100)\<lparr>rank := Num 2\<rparr>,
            (from_complete example_nan)\<lparr>rank := Num 3\<rparr>,
            (from_complete example_zero)\<lparr>rank := Num 4\<rparr>]"
    by (simp add: run_defs example_defs)
  note th = merge_independent_of_row_order [OF p refl refl d, THEN conjunct1]
  show ?thesis
    by (intro conjI) (rule p d run run' th)+
qed

text \<open>
  The claim as stated fails when the improved analysis has two rows for one name:
  \<open>match.iloc[0]\<close> takes the first, so swapping the two rows changes the merged openrank
  from 7.2 to 3.1.
\<close>

theorem merge_independent_of_row_order_counterexample:
  "load_and_merge_data [] [example_top100] [example_improved, example_improved_low] =
     Inr [\<lparr>rank = Num 1, org = ''org'', project = ''repo'', full_name = ''org/repo'',
           total_stars = Num 500, monthly_stars_latest = Num 500, activity_latest = Num 3,
           openrank_latest = Num 7.2, source = ''top100_only''\<rparr>]
   \<and> load_and_merge_data [] [example_top100] [example_improved_low, example_improved] =
     Inr [\<lparr>rank = Num 1, org = ''org'', project = ''repo'', full_name = ''org/repo'',
           total_stars = Num 500, monthly_stars_latest = Num 500, activity_latest = Num 3,
           openrank_latest = Num 3.1, source = ''top100_only''\<rparr>]"
  by (simp add: run_defs example_defs)


subsection \<open>Missing values\<close>

lemma activity_value_of_default:
  "activity_value_of Missing = JNum 0"
  "activity_value_of Unreadable = JNum 0"
  "activity_value_of (Content (JObj [])) = JNum 0"
  by (simp_all add: activity_value_of_def)

lemma project_info_entry_activity:
  assumes "project_info_entry org_name project_name stars_file activity_file = Some info"
  shows "map_of info ''activity'' = Some (activity_value_of activity_file)"
  using assms
  by (auto simp: project_info_entry_def split: json_file.splits sum.splits)

lemma final_record_by_source:
  assumes res: "load_and_merge_data c t i = Inr final" and r: "r \<in> set final"
  shows "source r = ''top100_only'' \<Longrightarrow>
           \<exists>row \<in> set t. drop_rank r = drop_rank (from_top100 i 0 row)"
    and "source r = ''complete_ranking'' \<Longrightarrow>
           \<exists>row \<in> set c. drop_rank r = drop_rank (from_complete row)"
proof -
  note cases = final_record_cases [OF res r]
  show "\<exists>row \<in> set t. drop_rank r = drop_rank (from_top100 i 0 row)"
    if s: "source r = ''top100_only''"
    using cases
  proof
    assume "\<exists>row \<in> set c. drop_rank r = drop_rank (from_complete row)"
    then obtain row where "drop_rank r = drop_rank (from_complete row)" by blast
    from drop_rank_eq_fields(8) [OF this] s show ?thesis by simp
  next
    assume "\<exists>row \<in> set t. t_full_name row \<notin> c_full_name ` set c
              \<and> drop_rank r = drop_rank (from_top100 i 0 row)"
    then show ?thesis by blast
  qed
  show "\<exists>row \<in> set c. drop_rank r = drop_rank (from_complete row)"
    if s: "source r = ''complete_ranking''"
    using cases
  proof
    assume "\<exists>row \<in> set c. drop_rank r = drop_rank (from_complete row)"
    then show ?thesis .
  next
    assume "\<exists>row \<in> set t. t_full_name row \<notin> c_full_name ` set c
              \<and> drop_rank r = drop_rank (from_top100 i 0 row)"
    then obtain row where "drop_rank r = drop_rank (from_top100 i 0 row)" by blast
    from drop_rank_eq_fields(8) [OF this] s show ?thesis by simp
  qed
qed

text \<open>
  C2, as the code has it.  A value with no data is absent (\<open>NaN\<close>) only where an input
  table already has it so: rows of the complete ranking are copied unchanged, and so is
  the openrank of a matching row of the improved analysis.  For a top-100 project with no
  row in the improved analysis the merge stores \<open>openrank_latest = 0.0\<close> as its marker of
  a missing value, and the ranking then counts the record among those without openrank.
  \<open>collect_project_info\<close> stores the activity \<open>0\<close> when \<open>activity.json\<close> is missing or
  unreadable.
\<close>

theorem missing_openrank_stored_as_zero:
  "(load_and_merge_data c t i = Inr final \<and> r \<in> set final \<and> source r = ''top100_only''
      \<and> full_name r \<notin> i_full_name ` set i
      \<longrightarrow> openrank_latest r = Num 0 \<and> \<not> has_openrank r)
   \<and> (load_and_merge_data c t i = Inr final \<and> r \<in> set final \<and> source r = ''top100_only''
      \<and> full_name r \<in> i_full_name ` set i
      \<longrightarrow> (\<exists>m \<in> set i. i_full_name m = full_name r \<and> openrank_latest r = i_openrank_latest m))
   \<and> (load_and_merge_data c t i = Inr final \<and> r \<in> set final \<and> source r = ''complete_ranking''
      \<longrightarrow> (\<exists>row \<in> set c. full_name r = c_full_name row
             \<and> openrank_latest r = c_openrank_latest row
             \<and> activity_latest r = c_activity_latest row))
   \<and> (project_info_entry org_name project_name stars_file activity_file = Some info
        \<and> (activity_file = Missing \<or> activity_file = Unreadable)
      \<longrightarrow> map_of info ''activity'' = Some (JNum 0))"
proof (intro conjI impI)
  assume a: "load_and_merge_data c t i = Inr final \<and> r \<in> set final
      \<and> source r = ''top100_only'' \<and> full_name r \<notin> i_full_name ` set i"
  then have res: "load_and_merge_data c t i = Inr final" and r: "r \<in> set final"
    and s: "source r = ''top100_only''" and n: "full_name r \<notin> i_full_name ` set i"
    by simp_all
  from final_record_by_source(1) [OF res r s]
  obtain row where row: "drop_rank r = drop_rank (from_top100 i 0 row)" by blast
  note f = drop_rank_eq_fields [OF row]
  from f(3) have fn: "full_name r = t_full_name row" by (simp add: from_top100_def Let_def)
  with n have "lookup_improved i (t_full_name row) = None"
    by (simp add: lookup_improved_None)
  with f(7) show o: "openrank_latest r = Num 0" by (simp add: from_top100_def)
  then show "\<not> has_openrank r" by (simp add: has_openrank_def)
next
  assume a: "load_and_merge_data c t i = Inr final \<and> r \<in> set final
      \<and> source r = ''top100_only'' \<and> full_name r \<in> i_full_name ` set i"
  then have res: "load_and_merge_data c t i = Inr final" and r: "r \<in> set final"
    and s: "source r = ''top100_only''" and n: "full_name r \<in> i_full_name ` set i"
    by simp_all
  from final_record_by_source(1) [OF res r s]
  obtain row where row: "drop_rank r = drop_rank (from_top100 i 0 row)" by blast
  note f = drop_rank_eq_fields [OF row]
  from f(3) have fn: "full_name r = t_full_name row" by (simp add: from_top100_def Let_def)
  with n have "lookup_improved i (t_full_name row) \<noteq> None"
    by (simp add: lookup_improved_None)
  then obtain v where v: "lookup_improved i (t_full_name row) = Some v" by blast
  with f(7) have "openrank_latest r = v" by (simp add: from_top100_def)
  with lookup_improved_Some [OF v] fn
  show "\<exists>m \<in> set i. i_full_name m = full_name r \<and> openrank_latest r = i_openrank_latest m"
    by auto
next
  assume a: "load_and_merge_data c t i = Inr final \<and> r \<in> set final
      \<and> source r = ''complete_ranking''"
  then have res: "load_and_merge_data c t i = Inr final" and r: "r \<in> set final"
    and s: "source r = ''complete_ranking''"
    by simp_all
  from final_record_by_source(2) [OF res r s]
  obtain row where row: "row \<in> set c" "drop_rank r = drop_rank (from_complete row)"
    by blast
  note f = drop_rank_eq_fields [OF row(2)]
  from f(3) f(7) f(6) have "full_name r = c_full_name row
             \<and> openrank_latest r = c_openrank_latest row
             \<and> activity_latest r = c_activity_latest row"
    by (simp add: from_complete_def)
  with row(1)
  show "\<exists>row \<in> set c. full_name r = c_full_name row
             \<and> openrank_latest r = c_openrank_latest row
             \<and> activity_latest r = c_activity_latest row"
    by blast
next
  assume a: "project_info_entry org_name project_name stars_file activity_file = Some info
        \<and> (activity_file = Missing \<or> activity_file = Unreadable)"
  then show "map_of info ''activity'' = Some (JNum 0)"
    using project_info_entry_activity [of org_name project_name stars_file activity_file info]
      activity_value_of_default(1,2)
    by auto
qed

theorem missing_openrank_stored_as_zero_witness:
  "load_and_merge_data [example_ranked] [example_top100] [] =
     Inr [(from_complete example_ranked)\<lparr>rank := Num 1\<rparr>,
          (from_top100 [] 0 example_top100)\<lparr>rank := Num 2\<rparr>]
   \<and> source ((from_top100 [] 0 example_top100)\<lparr>rank := Num 2\<rparr>) = ''top100_only''
   \<and> openrank_latest ((from_top100 [] 0 example_top100)\<lparr>rank := Num 2\<rparr>) = Num 0
   \<and> \<not> has_openrank ((from_top100 [] 0 example_top100)\<lparr>rank := Num 2\<rparr>)
   \<and> source ((from_complete example_ranked)\<lparr>rank := Num 1\<rparr>) = ''complete_ranking''
   \<and> openrank_latest ((from_complete example_ranked)\<lparr>rank := Num 1\<rparr>) = Num 7.2
   \<and> load_and_merge_data [] [example_top100] [example_improved] =
       Inr [(from_top100 [example_improved] 0 example_top100)\<lparr>rank := Num 1\<rparr>]
   \<and> openrank_latest ((from_top100 [example_improved] 0 example_top100)\<lparr>rank := Num 1\<rparr>)
       = Num 7.2
   \<and> project_info_entry ''org'' ''repo'' (Content (JNum 5)) Missing =
       Some [(''organization'', JStr ''org''), (''project'', JStr ''repo''),
             (''full_name'', JStr ''org/repo''), (''stars'', JNum 5), (''activity'', JNum 0)]
   \<and> map_of [(''organization'', JStr ''org''), (''project'', JStr ''repo''),
             (''full_name'', JStr ''org/repo''), (''stars'', JNum 5), (''activity'', JNum 0)]
         ''activity'' = Some (JNum 0)"
proof -
  let ?A = "(from_complete example_ranked)\<lparr>rank := Num 1\<rparr>"
  let ?B = "(from_top100 [] 0 example_top100)\<lparr>rank := Num 2\<rparr>"
  let ?C = "(from_top100 [example_improved] 0 example_top100)\<lparr>rank := Num 1\<rparr>"
  let ?info = "[(''organization'', JStr ''org''), (''project'', JStr ''repo''),
             (''full_name'', JStr ''org/repo''), (''stars'', JNum 5), (''activity'', JNum 0)]"
  have run1: "load_and_merge_data [example_ranked] [example_top100] [] = Inr [?A, ?B]"
    by (simp add: run_defs example_defs)
  have run2: "load_and_merge_data [] [example_top100] [example_improved] = Inr [?C]"
    by (simp add: run_defs example_defs)
  have srcB: "source ?B = ''top100_only''" and srcA: "source ?A = ''complete_ranking''"
    and srcC: "source ?C = ''top100_only''"
    by simp_all
  have nameB: "full_name ?B \<notin> i_full_name ` set []" by simp
  have nameC: "full_name ?C \<in> i_full_name ` set [example_improved]"
    by (simp add: from_top100_def example_defs)
  have entry: "project_info_entry ''org'' ''repo'' (Content (JNum 5)) Missing = Some ?info"
    by (simp add: project_info_entry_def latest_stars_of_def activity_value_of_def)
  note t1 = missing_openrank_stored_as_zero
    [where c = "[example_ranked]" and t = "[example_top100]" and i = "[]"
       and final = "[?A, ?B]" and r = ?B and org_name = "''org''"
       and project_name = "''repo''" and stars_file = "Content (JNum 5)"
       and activity_file = Missing and info = ?info]
  from t1 run1 srcB nameB have b: "openrank_latest ?B = Num 0 \<and> \<not> has_openrank ?B"
    by simp
  from t1 entry have act: "map_of ?info ''activity'' = Some (JNum 0)"
    by blast
  have oA: "openrank_latest ?A = Num 7.2" by (simp add: from_complete_def example_defs)
  have oC: "openrank_latest ?C = Num 7.2"
    by (simp add: from_top100_def lookup_improved_def example_defs)
  from run1 srcB b srcA oA run2 oC entry act show ?thesis by blast
qed

text \<open>
  The claim as stated fails: a top-100 project without a row in the improved analysis
  gets the openrank \<open>0.0\<close>, and a project folder without \<open>activity.json\<close> gets the
  activity \<open>0\<close>.
\<close>

theorem missing_openrank_stored_as_zero_counterexample:
  "load_and_merge_data [] [example_top100] [] =
     Inr [\<lparr>rank = Num 1, org = ''org'', project = ''repo'', full_name = ''org/repo'',
           total_stars = Num 500, monthly_stars_latest = Num 500, activity_latest = Num 3,
           openrank_latest = Num 0, source = ''top100_only''\<rparr>]
   \<and> project_info_entry ''org'' ''repo'' (Content (JNum 5)) Missing =
       Some [(''organization'', JStr ''org''), (''project'', JStr ''repo''),
             (''full_name'', JStr ''org/repo''), (''stars'', JNum 5), (''activity'', JNum 0)]"
  by (simp add: run_defs example_defs project_info_entry_def latest_stars_of_def
        activity_value_of_def)

end
